theory Spec2Isabelle
  imports Main
begin

section \<open>The token manager of the backend (src/backend/services/tokenManager.js)\<close>

subsection \<open>Values and configuration\<close>

text \<open>
  A token, a client id and a client secret are JavaScript values that are either
  a string or \<open>undefined\<close> (an environment variable that is not set). The code tests
  them for truthiness: \<open>undefined\<close> and the empty string are falsy.
\<close>

type_synonym token = "string option"

definition truthy :: "token \<Rightarrow> bool" where
  "truthy v = (case v of None \<Rightarrow> False | Some s \<Rightarrow> s \<noteq> [])"

text \<open>The environment variables the constructor reads.\<close>

record process_env =
  PORT_API_TOKEN_PRIMARY :: token
  PORT_API_TOKEN_SECONDARY :: token
  PORT_SERVICE_TOKEN :: token
  PORT_CLIENT_ID :: token
  PORT_CLIENT_SECRET :: token

text \<open>The fields \<open>this.tokens\<close> and \<open>this.clientCredentials\<close>.\<close>

record static_tokens =
  primary :: token
  secondary :: token
  service :: token

record client_credentials =
  clientId :: token
  clientSecret :: token

text \<open>The object \<open>TokenManager\<close>. Times are milliseconds since the epoch, as \<open>Date.now()\<close> gives them.\<close>

record TokenManager =
  tokens :: static_tokens
  clientCredentials :: client_credentials
  currentToken :: token
  lastRotation :: int
  rotationInterval :: int
  isRotating :: bool

subsection \<open>The remote service, seen through axios\<close>

text \<open>
  What comes back for one HTTP request: a response with a status code and, in its body,
  the field \<open>accessToken\<close> (absent from the body: \<open>None\<close>), or no response at all
  (a transport error, or the 10 second timeout).
\<close>

datatype http_outcome = Response nat token | NoResponse

datatype request = GetBlueprints token | PostAccessToken token token

datatype error =
    CredentialsMissing
  | AxiosError "nat option"
  | GenerateFailed nat
  | RangeError

text \<open>
  \<open>axios.get\<close> and \<open>axios.post\<close> with the default \<open>validateStatus\<close>: the promise is
  fulfilled with the response for a status from 200 to 299 and rejected otherwise, the
  error carrying the response when there is one.
\<close>

definition axios :: "http_outcome \<Rightarrow> error + (nat \<times> token)" where
  "axios out =
     (case out of
        NoResponse \<Rightarrow> Inl (AxiosError None)
      | Response status accessToken \<Rightarrow>
          if 200 \<le> status \<and> status < 300 then Inr (status, accessToken)
          else Inl (AxiosError (Some status)))"

subsection \<open>validateToken (lines 71-90)\<close>

text \<open>
  An asynchronous function is modelled in two halves: the request it issues when it is
  called, and what it returns once the outcome of that request is known.
\<close>

definition validateToken_request :: "token \<Rightarrow> request" where
  "validateToken_request token = GetBlueprints token"

definition validateToken_result :: "http_outcome \<Rightarrow> bool" where
  "validateToken_result out =
     (case axios out of
        Inr (status, accessToken) \<Rightarrow> status = 200
      | Inl e \<Rightarrow> False)"

subsection \<open>generateNewToken (lines 92-138)\<close>

definition generateNewToken_request :: "TokenManager \<Rightarrow> error + request" where
  "generateNewToken_request m =
     (if \<not> truthy (clientId (clientCredentials m)) \<or> \<not> truthy (clientSecret (clientCredentials m))
      then Inl CredentialsMissing
      else Inr (PostAccessToken (clientId (clientCredentials m)) (clientSecret (clientCredentials m))))"

definition generateNewToken_result :: "http_outcome \<Rightarrow> error + token" where
  "generateNewToken_result out =
     (case axios out of
        Inr (status, accessToken) \<Rightarrow>
          if status = 200 then Inr accessToken else Inl (GenerateFailed status)
      | Inl e \<Rightarrow> Inl e)"

subsection \<open>rotateToken (lines 140-212)\<close>

text \<open>
  \<open>rotateToken\<close> is asynchronous: it runs until it awaits the outcome of a request,
  and goes on from there when the outcome arrives. The places where it awaits:
\<close>

datatype site =
    GenNoToken      \<comment> \<open>line 150: generateNewToken, no current token\<close>
  | ValCurrent      \<comment> \<open>line 162: validateToken(this.currentToken)\<close>
  | GenRotate       \<comment> \<open>line 170: generateNewToken, current token invalid\<close>
  | ValBackup       \<comment> \<open>line 185: validateToken(newToken)\<close>
  | ValPrimary      \<comment> \<open>line 195: validateToken(this.tokens.primary)\<close>
  | ValSecondary    \<comment> \<open>line 199: validateToken(this.tokens.secondary)\<close>

type_synonym pending = "site \<times> request"

text \<open>The token a pending validation was called with.\<close>

fun bearer :: "request \<Rightarrow> token" where
  "bearer (GetBlueprints token) = token"
| "bearer (PostAccessToken cid secret) = None"

text \<open>Leaving the \<open>try\<close> block: the \<open>finally\<close> of line 210, and the function returns.\<close>

definition finish :: "TokenManager \<Rightarrow> TokenManager \<times> pending option" where
  "finish m = (m\<lparr>isRotating := False\<rparr>, None)"

text \<open>The two assignments \<open>this.currentToken = newToken; this.lastRotation = Date.now()\<close>.\<close>

definition adopt :: "token \<Rightarrow> int \<Rightarrow> TokenManager \<Rightarrow> TokenManager" where
  "adopt newToken now m = m\<lparr>currentToken := newToken, lastRotation := now\<rparr>"

text \<open>Lines 199-205, from the test of \<open>this.tokens.secondary\<close>.\<close>

definition probe_secondary :: "TokenManager \<Rightarrow> TokenManager \<times> pending option" where
  "probe_secondary m =
     (if truthy (secondary (tokens m))
      then (m, Some (ValSecondary, validateToken_request (secondary (tokens m))))
      else finish m)"

text \<open>Lines 195-205, the \<open>else\<close> branch of line 193.\<close>

definition probe_primary :: "TokenManager \<Rightarrow> TokenManager \<times> pending option" where
  "probe_primary m =
     (if truthy (primary (tokens m))
      then (m, Some (ValPrimary, validateToken_request (primary (tokens m))))
      else probe_secondary m)"

text \<open>Lines 180-191, the fallback to the backup token.\<close>

definition backup :: "TokenManager \<Rightarrow> TokenManager \<times> pending option" where
  "backup m =
     (let newToken = (if currentToken m = primary (tokens m)
                      then secondary (tokens m) else primary (tokens m))
      in if truthy newToken then (m, Some (ValBackup, validateToken_request newToken))
         else finish m)"

text \<open>Lines 160-206, from the test \<open>if (this.currentToken)\<close>.\<close>

definition test_current :: "TokenManager \<Rightarrow> TokenManager \<times> pending option" where
  "test_current m =
     (if truthy (currentToken m)
      then (m, Some (ValCurrent, validateToken_request (currentToken m)))
      else probe_primary m)"

text \<open>
  From the call to the first \<open>await\<close>, or to the return when nothing is awaited. The
  result is the object as the code leaves it and the request it waits for, if any. An
  error thrown by \<open>generateNewToken\<close> is caught at once (line 155).
\<close>

definition rotateToken_enter :: "TokenManager \<Rightarrow> TokenManager \<times> pending option" where
  "rotateToken_enter m =
     (if isRotating m then (m, None)
      else
        let m1 = m\<lparr>isRotating := True\<rparr> in
        if \<not> truthy (currentToken m1) \<and> truthy (clientId (clientCredentials m1))
           \<and> truthy (clientSecret (clientCredentials m1))
        then (case generateNewToken_request m1 of
                Inr req \<Rightarrow> (m1, Some (GenNoToken, req))
              | Inl e \<Rightarrow> test_current m1)
        else test_current m1)"

text \<open>
  From the arrival of the awaited outcome, at time \<open>now\<close>, to the next \<open>await\<close> or to
  the return. The fields are read as they are when the code resumes.
\<close>

fun rotateToken_resume ::
  "pending \<Rightarrow> http_outcome \<Rightarrow> int \<Rightarrow> TokenManager \<Rightarrow> TokenManager \<times> pending option" where
  "rotateToken_resume (GenNoToken, req) out now m =
     (case generateNewToken_result out of
        Inr newToken \<Rightarrow> finish (adopt newToken now m)
      | Inl e \<Rightarrow> test_current m)"
| "rotateToken_resume (ValCurrent, req) out now m =
     (let isValid = validateToken_result out in
      if \<not> isValid then
        if truthy (clientId (clientCredentials m)) \<and> truthy (clientSecret (clientCredentials m))
        then (case generateNewToken_request m of
                Inr req' \<Rightarrow> (m, Some (GenRotate, req'))
              | Inl e \<Rightarrow> backup m)
        else backup m
      else finish m)"
| "rotateToken_resume (GenRotate, req) out now m =
     (case generateNewToken_result out of
        Inr newToken \<Rightarrow> finish (adopt newToken now m)
      | Inl e \<Rightarrow> backup m)"
| "rotateToken_resume (ValBackup, req) out now m =
     (if validateToken_result out then finish (adopt (bearer req) now m) else finish m)"
| "rotateToken_resume (ValPrimary, req) out now m =
     (if validateToken_result out then finish (adopt (primary (tokens m)) now m)
      else probe_secondary m)"
| "rotateToken_resume (ValSecondary, req) out now m =
     (if validateToken_result out then finish (adopt (secondary (tokens m)) now m)
      else finish m)"

text \<open>
  One whole attempt, with nothing else running in between. The remote service and the
  clock are given per place of the code: \<open>net site req\<close> is what comes back for the
  request \<open>req\<close> awaited at \<open>site\<close>, and \<open>clock site\<close> is what \<open>Date.now()\<close> reads when
  the code resumes from there. No place is passed twice in one attempt, so this covers
  every behaviour of the service. The result is the object after the attempt and the
  requests the attempt has issued, in order.
\<close>

type_synonym network = "site \<Rightarrow> request \<Rightarrow> http_outcome"
type_synonym clock = "site \<Rightarrow> int"

fun rank :: "pending option \<Rightarrow> nat" where
  "rank None = 0"
| "rank (Some (GenNoToken, req)) = 5"
| "rank (Some (ValCurrent, req)) = 4"
| "rank (Some (GenRotate, req)) = 3"
| "rank (Some (ValPrimary, req)) = 3"
| "rank (Some (ValBackup, req)) = 2"
| "rank (Some (ValSecondary, req)) = 2"

lemma rank_finish [simp]: "rank (snd (finish m)) = 0"
  by (simp add: finish_def)

lemma rank_probe_secondary: "rank (snd (probe_secondary m)) \<le> 2"
  by (simp add: probe_secondary_def)

lemma rank_probe_primary: "rank (snd (probe_primary m)) \<le> 3"
  using rank_probe_secondary [of m] by (simp add: probe_primary_def)

lemma rank_backup: "rank (snd (backup m)) \<le> 2"
  by (simp add: backup_def Let_def)

lemma rank_test_current: "rank (snd (test_current m)) \<le> 4"
  using rank_probe_primary [of m] by (simp add: test_current_def)

lemma rank_resume:
  "rank (snd (rotateToken_resume (site, req) out now m)) < rank (Some (site, req))"
  using rank_probe_secondary [of m] rank_probe_primary [of m] rank_backup [of m]
  by (cases site) (auto simp: test_current_def split: sum.splits)

function await_all ::
  "network \<Rightarrow> clock \<Rightarrow> request list \<Rightarrow> TokenManager \<times> pending option
     \<Rightarrow> TokenManager \<times> request list" where
  "await_all net clock issued (m, None) = (m, issued)"
| "await_all net clock issued (m, Some (site, req)) =
     await_all net clock (issued @ [req])
       (rotateToken_resume (site, req) (net site req) (clock site) m)"
  by pat_completeness auto
termination
proof (relation "measure (\<lambda>(net, clock, issued, m, p). rank p)")
  fix net :: network and clock :: clock and issued :: "request list"
    and m :: TokenManager and site :: site and req :: request
  show "((net, clock, issued @ [req],
            rotateToken_resume (site, req) (net site req) (clock site) m),
         (net, clock, issued, m, Some (site, req)))
        \<in> measure (\<lambda>(net, clock, issued, m, p). rank p)"
    using rank_resume [of site req "net site req" "clock site" m]
    by (cases "rotateToken_resume (site, req) (net site req) (clock site) m") simp
qed simp

definition rotateToken :: "network \<Rightarrow> clock \<Rightarrow> TokenManager \<Rightarrow> TokenManager \<times> request list" where
  "rotateToken net clock m = await_all net clock [] (rotateToken_enter m)"

subsection \<open>getCurrentToken, getStatus, manualRotate (lines 214-235)\<close>




record status =
  st_currentToken :: string
  st_primaryToken :: string
  st_secondaryToken :: string
  st_serviceToken :: string
  st_clientId :: string
  st_clientSecret :: string
  st_lastRotation :: int
  st_nextRotation :: int
  st_isRotating :: bool


text \<open>\<open>manualRotate\<close> calls \<open>rotateToken\<close> and does not wait for it.\<close>

definition manualRotate :: "TokenManager \<Rightarrow> TokenManager \<times> pending option" where
  "manualRotate m = rotateToken_enter m"

subsection \<open>The process: constructor, timer, and what is in flight\<close>

text \<open>
  The asynchronous calls that wait for an outcome: rotation attempts, and the initial
  generation that the constructor starts (\<open>initializeTokenFromCredentials\<close>, lines 49-63).
\<close>

datatype task = Rotation pending | Initialize request

fun is_rotation :: "task \<Rightarrow> bool" where
  "is_rotation (Rotation p) = True"
| "is_rotation (Initialize req) = False"

fun request_of :: "task \<Rightarrow> request" where
  "request_of (Rotation p) = snd p"
| "request_of (Initialize req) = req"

record system =
  manager :: TokenManager
  inflight :: "task list"

text \<open>The constructor (lines 4-47), run at time \<open>now\<close>; 2.5 hours are 9000000 ms.\<close>

definition "constructor" :: "process_env \<Rightarrow> int \<Rightarrow> system" where
  "constructor env now =
     (let m = \<lparr> tokens = \<lparr> primary = PORT_API_TOKEN_PRIMARY env,
                           secondary = PORT_API_TOKEN_SECONDARY env,
                           service = PORT_SERVICE_TOKEN env \<rparr>,
                clientCredentials = \<lparr> clientId = PORT_CLIENT_ID env,
                                      clientSecret = PORT_CLIENT_SECRET env \<rparr>,
                currentToken = PORT_API_TOKEN_PRIMARY env,
                lastRotation = now,
                rotationInterval = 9000000,
                isRotating = False \<rparr>
      in \<lparr> manager = m,
           inflight =
             (if \<not> truthy (primary (tokens m)) \<and> truthy (clientId (clientCredentials m))
                 \<and> truthy (clientSecret (clientCredentials m))
              then (case generateNewToken_request m of
                      Inr req \<Rightarrow> [Initialize req]
                    | Inl e \<Rightarrow> [])
              else []) \<rparr>)"

text \<open>
  \<open>initializeTokenFromCredentials\<close> once the outcome is known; the error it rethrows is
  caught by the \<open>.catch\<close> of line 40.
\<close>

definition initializeTokenFromCredentials_resume ::
  "http_outcome \<Rightarrow> int \<Rightarrow> TokenManager \<Rightarrow> TokenManager" where
  "initializeTokenFromCredentials_resume out now m =
     (case generateNewToken_result out of
        Inr newToken \<Rightarrow> adopt newToken now m
      | Inl e \<Rightarrow> m)"

text \<open>
  What happens to the process: the timer of \<open>startAutoRotation\<close> fires, \<open>manualRotate\<close>
  is called, or the outcome of the request of the \<open>i\<close>-th call in flight arrives at
  time \<open>now\<close>. JavaScript runs each of these to the next \<open>await\<close> before anything else.
\<close>

datatype event = Timer | ManualRotate | Settle nat http_outcome int

definition spawn :: "pending option \<Rightarrow> task list" where
  "spawn p = (case p of None \<Rightarrow> [] | Some q \<Rightarrow> [Rotation q])"

definition without :: "nat \<Rightarrow> task list \<Rightarrow> task list" where
  "without i ts = take i ts @ drop (Suc i) ts"

fun step :: "event \<Rightarrow> system \<Rightarrow> system" where
  "step Timer sys =
     (case rotateToken_enter (manager sys) of
        (m, p) \<Rightarrow> \<lparr> manager = m, inflight = inflight sys @ spawn p \<rparr>)"
| "step ManualRotate sys =
     (case manualRotate (manager sys) of
        (m, p) \<Rightarrow> \<lparr> manager = m, inflight = inflight sys @ spawn p \<rparr>)"
| "step (Settle i out now) sys =
     (if i < length (inflight sys) then
        (case inflight sys ! i of
           Initialize req \<Rightarrow>
             \<lparr> manager = initializeTokenFromCredentials_resume out now (manager sys),
               inflight = without i (inflight sys) \<rparr>
         | Rotation p \<Rightarrow>
             (case rotateToken_resume p out now (manager sys) of
                (m, p') \<Rightarrow> \<lparr> manager = m, inflight = without i (inflight sys) @ spawn p' \<rparr>))
      else sys)"

fun run :: "event list \<Rightarrow> system \<Rightarrow> system" where
  "run [] sys = sys"
| "run (e # es) sys = run es (step e sys)"

text \<open>
  The tokens that the service has issued or confirmed, read off the requests and their
  outcomes alone: a GET on /v1/blueprints answered with 200 confirms its bearer token,
  a POST on /v1/auth/access_token answered with 200 issues the token of its body. An
  absent or empty token is no token: nothing is issued by a 200 whose body has no
  \<open>accessToken\<close> or an empty one.
\<close>

fun confirms :: "request \<Rightarrow> http_outcome \<Rightarrow> token list" where
  "confirms (GetBlueprints token) out =
     (if validateToken_result out \<and> truthy token then [token] else [])"
| "confirms (PostAccessToken cid secret) out =
     (case generateNewToken_result out of
        Inr newToken \<Rightarrow> if truthy newToken then [newToken] else []
      | Inl e \<Rightarrow> [])"

text \<open>
  The outcome of a generation that returns without a token: the POST is answered with
  200 and \<open>generateNewToken\<close> returns the absent or empty \<open>accessToken\<close> of the body
  (lines 118-121).
\<close>

fun empty_issue :: "request \<Rightarrow> http_outcome \<Rightarrow> bool" where
  "empty_issue (PostAccessToken cid secret) out =
     (case generateNewToken_result out of
        Inr newToken \<Rightarrow> \<not> truthy newToken
      | Inl e \<Rightarrow> False)"
| "empty_issue (GetBlueprints token) out = False"

fun observe :: "event \<Rightarrow> system \<Rightarrow> token list" where
  "observe (Settle i out now) sys =
     (if i < length (inflight sys) then confirms (request_of (inflight sys ! i)) out else [])"
| "observe Timer sys = []"
| "observe ManualRotate sys = []"

fun history :: "event list \<Rightarrow> system \<Rightarrow> token list" where
  "history [] sys = []"
| "history (e # es) sys = observe e sys @ history es (step e sys)"

subsection \<open>Notions used to state the properties\<close>

text \<open>The number of rotation attempts that are in progress.\<close>

definition rotations :: "task list \<Rightarrow> nat" where
  "rotations ts = length (filter is_rotation ts)"



text \<open>
  Requests in flight that fit the place that awaits them: a generation awaits a POST,
  a validation a GET for a token that is set, and the probes of lines 195 and 199 the
  GET for the configured primary and secondary token.
\<close>

fun is_post :: "request \<Rightarrow> bool" where
  "is_post (PostAccessToken cid secret) = True"
| "is_post (GetBlueprints token) = False"

fun wf_pending :: "static_tokens \<Rightarrow> pending \<Rightarrow> bool" where
  "wf_pending ts (GenNoToken, req) = is_post req"
| "wf_pending ts (GenRotate, req) = is_post req"
| "wf_pending ts (ValCurrent, req) = (\<not> is_post req \<and> truthy (bearer req))"
| "wf_pending ts (ValBackup, req) = (\<not> is_post req \<and> truthy (bearer req))"
| "wf_pending ts (ValPrimary, req) =
     (req = GetBlueprints (primary ts) \<and> truthy (primary ts))"
| "wf_pending ts (ValSecondary, req) =
     (req = GetBlueprints (secondary ts) \<and> truthy (secondary ts))"

fun wf_task :: "static_tokens \<Rightarrow> task \<Rightarrow> bool" where
  "wf_task ts (Rotation p) = wf_pending ts p"
| "wf_task ts (Initialize req) = is_post req"

text \<open>The time at which an outcome arrives.\<close>

fun arrival :: "event \<Rightarrow> int option" where
  "arrival (Settle i out now) = Some now"
| "arrival Timer = None"
| "arrival ManualRotate = None"

text \<open>
  A rotation attempt that awaits the outcome of line 162, the validation of the token
  that it found in \<open>this.currentToken\<close>; and the event that is the arrival of such an
  outcome.
\<close>

fun awaits_held :: "task \<Rightarrow> bool" where
  "awaits_held (Rotation p) = (fst p = ValCurrent)"
| "awaits_held (Initialize req) = False"

fun revalidates :: "event \<Rightarrow> system \<Rightarrow> bool" where
  "revalidates (Settle i out now) sys =
     (i < length (inflight sys) \<and> awaits_held (inflight sys ! i))"
| "revalidates Timer sys = False"
| "revalidates ManualRotate sys = False"

text \<open>The event is the arrival of a generation that returns without a token.\<close>

fun tokenless :: "event \<Rightarrow> system \<Rightarrow> bool" where
  "tokenless (Settle i out now) sys =
     (i < length (inflight sys) \<and> empty_issue (request_of (inflight sys ! i)) out)"
| "tokenless Timer sys = False"
| "tokenless ManualRotate sys = False"

text \<open>
  The initial generation of the constructor is not held back by \<open>isRotating\<close>. The
  event is its return with a token while a rotation attempt awaits the validation of
  the token it found; a course of events is free of overlap when no event of it is.
\<close>

fun returns :: "http_outcome \<Rightarrow> bool" where
  "returns out = (case generateNewToken_result out of Inr newToken \<Rightarrow> True | Inl e \<Rightarrow> False)"

fun overlaps :: "event \<Rightarrow> system \<Rightarrow> bool" where
  "overlaps (Settle i out now) sys =
     (i < length (inflight sys) \<and> \<not> is_rotation (inflight sys ! i) \<and> returns out
      \<and> list_ex awaits_held (inflight sys))"
| "overlaps Timer sys = False"
| "overlaps ManualRotate sys = False"

fun apart :: "event list \<Rightarrow> system \<Rightarrow> bool" where
  "apart [] sys = True"
| "apart (e # es) sys = (\<not> overlaps e sys \<and> apart es (step e sys))"

text \<open>Invariants of the process, used in the proofs.\<close>

definition wf_system :: "system \<Rightarrow> bool" where
  "wf_system sys = (\<forall>t \<in> set (inflight sys). wf_task (tokens (manager sys)) t)"




subsection \<open>Configurations and services of the scenarios\<close>

definition env_static :: process_env where
  "env_static =
     \<lparr> PORT_API_TOKEN_PRIMARY = Some ''tok-A'', PORT_API_TOKEN_SECONDARY = Some ''tok-B'',
       PORT_SERVICE_TOKEN = None, PORT_CLIENT_ID = None, PORT_CLIENT_SECRET = None \<rparr>"

definition env_credentials :: process_env where
  "env_credentials =
     \<lparr> PORT_API_TOKEN_PRIMARY = None, PORT_API_TOKEN_SECONDARY = None,
       PORT_SERVICE_TOKEN = None, PORT_CLIENT_ID = Some ''id'', PORT_CLIENT_SECRET = Some ''secret'' \<rparr>"

definition env_all :: process_env where
  "env_all =
     \<lparr> PORT_API_TOKEN_PRIMARY = Some ''tok-A'', PORT_API_TOKEN_SECONDARY = Some ''tok-B'',
       PORT_SERVICE_TOKEN = None, PORT_CLIENT_ID = Some ''id'', PORT_CLIENT_SECRET = Some ''secret'' \<rparr>"

text \<open>
  A remote service that answers 200 to a validation of the tokens in \<open>valid\<close> and 401 to
  any other, and that issues \<open>issued\<close> when there is one and answers 401 otherwise.
\<close>

definition remote :: "string list \<Rightarrow> string option \<Rightarrow> network" where
  "remote valid issued site req =
     (case req of
        GetBlueprints token \<Rightarrow>
          (case token of
             Some t \<Rightarrow> if t \<in> set valid then Response 200 None else Response 401 None
           | None \<Rightarrow> Response 401 None)
      | PostAccessToken cid secret \<Rightarrow>
          (case issued of
             Some t \<Rightarrow> Response 200 (Some t)
           | None \<Rightarrow> Response 401 None))"

definition at_noon :: clock where
  "at_noon site = 43200000"

text \<open>
  Courses of events: the timer fires, and the service confirms the current token; the
  service rejects the current token, and then confirms the backup token, rejects it
  too, or answers the generation with a 200 that carries no token; the initial
  generation of the constructor returns a token, before any rotation or overlapping
  with two manual rotations.
\<close>

definition timer_fired :: "event list" where
  "timer_fired = [Timer]"

definition held_confirmed :: event where
  "held_confirmed = Settle 0 (Response 200 None) 1000"

definition rejected_once :: "event list" where
  "rejected_once = [Timer, Settle 0 (Response 401 None) 1000]"

definition backup_confirmed :: event where
  "backup_confirmed = Settle 0 (Response 200 None) 2000"

definition issued_nothing :: event where
  "issued_nothing = Settle 0 (Response 200 None) 2000"

definition initial_issued :: event where
  "initial_issued = Settle 0 (Response 200 (Some ''tok-NEW'')) 500"



definition rejected_then_confirmed :: "event list" where
  "rejected_then_confirmed =
     [Timer, Settle 0 (Response 401 None) 1000, Settle 0 (Response 200 None) 2000]"

definition overlapping :: "event list" where
  "overlapping =
     [ManualRotate, Settle 1 (Response 200 (Some ''tok-1'')) 1000,
      ManualRotate, Settle 0 (Response 200 (Some ''tok-0'')) 2000,
      Settle 0 (Response 200 None) 3000]"

section \<open>Properties\<close>

subsection \<open>Facts about the parts of rotateToken\<close>

lemmas seg_defs = test_current_def probe_primary_def probe_secondary_def backup_def
  finish_def adopt_def generateNewToken_request_def validateToken_request_def Let_def

lemmas rot_defs = rotateToken_def rotateToken_enter_def seg_defs

lemma not_rotating_eq: "\<not> isRotating m \<Longrightarrow> m\<lparr>isRotating := False\<rparr> = m"
  by (cases m) simp

lemma flag_enter:
  "\<not> isRotating m \<Longrightarrow>
   isRotating (fst (rotateToken_enter m)) = (snd (rotateToken_enter m) \<noteq> None)"
  by (simp add: rotateToken_enter_def seg_defs)

lemma flag_enter_busy: "isRotating m \<Longrightarrow> rotateToken_enter m = (m, None)"
  by (simp add: rotateToken_enter_def)

lemma flag_resume:
  "isRotating m \<Longrightarrow>
   isRotating (fst (rotateToken_resume p out now m))
     = (snd (rotateToken_resume p out now m) \<noteq> None)"
  by (cases "(p, out, now, m)" rule: rotateToken_resume.cases)
     (auto simp add: seg_defs split: sum.splits)

lemma flag_initialize:
  "isRotating (initializeTokenFromCredentials_resume out now m) = isRotating m"
  by (simp add: initializeTokenFromCredentials_resume_def adopt_def split: sum.splits)

lemma await_all_releases:
  "isRotating (fst mp) = (snd mp \<noteq> None) \<Longrightarrow>
   \<not> isRotating (fst (await_all net clock issued mp))"
  by (induction net clock issued mp rule: await_all.induct) (auto simp: flag_resume)

lemma frame_enter:
  "tokens (fst (rotateToken_enter m)) = tokens m
   \<and> clientCredentials (fst (rotateToken_enter m)) = clientCredentials m
   \<and> rotationInterval (fst (rotateToken_enter m)) = rotationInterval m
   \<and> currentToken (fst (rotateToken_enter m)) = currentToken m
   \<and> lastRotation (fst (rotateToken_enter m)) = lastRotation m"
  by (simp add: rotateToken_enter_def seg_defs)

lemma frame_resume:
  "tokens (fst (rotateToken_resume p out now m)) = tokens m
   \<and> clientCredentials (fst (rotateToken_resume p out now m)) = clientCredentials m
   \<and> rotationInterval (fst (rotateToken_resume p out now m)) = rotationInterval m"
  by (cases "(p, out, now, m)" rule: rotateToken_resume.cases)
     (auto simp add: seg_defs split: sum.splits)

lemma frame_initialize:
  "tokens (initializeTokenFromCredentials_resume out now m) = tokens m
   \<and> clientCredentials (initializeTokenFromCredentials_resume out now m) = clientCredentials m
   \<and> rotationInterval (initializeTokenFromCredentials_resume out now m) = rotationInterval m"
  by (simp add: initializeTokenFromCredentials_resume_def adopt_def split: sum.splits)

lemma wf_enter:
  "snd (rotateToken_enter m) = Some p \<Longrightarrow>
   wf_pending (tokens m) p \<and> (fst p = ValCurrent \<longrightarrow> snd p = GetBlueprints (currentToken m))"
  by (auto simp add: rotateToken_enter_def seg_defs split: if_splits)

lemma wf_resume:
  "snd (rotateToken_resume p out now m) = Some p' \<Longrightarrow>
   wf_pending (tokens m) p'
   \<and> (fst p' = ValCurrent \<longrightarrow>
        snd p' = GetBlueprints (currentToken (fst (rotateToken_resume p out now m))))"
  by (cases "(p, out, now, m)" rule: rotateToken_resume.cases)
     (auto simp add: seg_defs split: sum.splits if_splits)

text \<open>
  What the arrival of an outcome does to the current token and to the time stamp: they
  change only where a token other than the one held is issued or confirmed, and then
  to that token and to the time of arrival; and where a generation returns without a
  token, which leaves no token set.
\<close>

lemma confirms_truthy: "t \<in> set (confirms req out) \<Longrightarrow> truthy t"
  by (cases req) (auto split: sum.splits if_splits)

lemma empty_issue_confirms: "empty_issue req out \<Longrightarrow> confirms req out = []"
  by (cases req) (auto split: sum.splits)

lemma resume_effect:
  assumes "wf_pending (tokens m) p"
  shows "(if fst p = ValCurrent \<or> (confirms (snd p) out = [] \<and> \<not> empty_issue (snd p) out)
          then currentToken (fst (rotateToken_resume p out now m)) = currentToken m
             \<and> lastRotation (fst (rotateToken_resume p out now m)) = lastRotation m
          else if empty_issue (snd p) out
          then \<not> truthy (currentToken (fst (rotateToken_resume p out now m)))
             \<and> lastRotation (fst (rotateToken_resume p out now m)) = now
          else confirms (snd p) out = [currentToken (fst (rotateToken_resume p out now m))]
             \<and> lastRotation (fst (rotateToken_resume p out now m)) = now)"
proof (cases p)
  case (Pair site req)
  show ?thesis
  proof (cases req)
    case (GetBlueprints t)
    with Pair assms show ?thesis
      by (cases site) (auto simp add: seg_defs split: sum.splits)
  next
    case (PostAccessToken cid secret)
    with Pair assms show ?thesis
      by (cases site) (auto simp add: seg_defs split: sum.splits)
  qed
qed

lemma initialize_effect:
  assumes "is_post req"
  shows "(if confirms req out = [] \<and> \<not> empty_issue req out
          then currentToken (initializeTokenFromCredentials_resume out now m) = currentToken m
             \<and> lastRotation (initializeTokenFromCredentials_resume out now m) = lastRotation m
          else if empty_issue req out
          then \<not> truthy (currentToken (initializeTokenFromCredentials_resume out now m))
             \<and> lastRotation (initializeTokenFromCredentials_resume out now m) = now
          else confirms req out = [currentToken (initializeTokenFromCredentials_resume out now m)]
             \<and> lastRotation (initializeTokenFromCredentials_resume out now m) = now)"
  using assms
  by (cases req)
     (auto simp add: initializeTokenFromCredentials_resume_def adopt_def split: sum.splits)

subsection \<open>Facts about the calls in flight\<close>

lemma rotations_append: "rotations (xs @ ys) = rotations xs + rotations ys"
  by (simp add: rotations_def)

lemma rotations_spawn: "rotations (spawn p) = (if p = None then 0 else 1)"
  by (cases p) (simp_all add: spawn_def rotations_def)

lemma rotations_without:
  assumes "i < length ts"
  shows "rotations (without i ts) = rotations ts - (if is_rotation (ts ! i) then 1 else 0)"
proof -
  from assms have "ts = take i ts @ ts ! i # drop (Suc i) ts"
    by (rule id_take_nth_drop)
  then have "rotations ts
      = rotations (take i ts) + rotations [ts ! i] + rotations (drop (Suc i) ts)"
    by (metis append_Cons append_Nil rotations_append add.assoc)
  then show ?thesis
    by (simp add: without_def rotations_append) (simp add: rotations_def)
qed

lemma rotations_pos:
  assumes "i < length ts" and "is_rotation (ts ! i)"
  shows "0 < rotations ts"
proof -
  from assms have "ts ! i \<in> set (filter is_rotation ts)" by simp
  then have "filter is_rotation ts \<noteq> []" by (metis empty_iff empty_set)
  then show ?thesis by (simp add: rotations_def)
qed

lemma set_without: "set (without i ts) \<subseteq> set ts"
  unfolding without_def
  by (metis Un_least set_append set_drop_subset set_take_subset)

lemma constructor_inflight:
  "inflight (constructor env t0) = [] \<or>
   inflight (constructor env t0)
     = [Initialize (PostAccessToken (PORT_CLIENT_ID env) (PORT_CLIENT_SECRET env))]"
  by (simp add: constructor_def Let_def generateNewToken_request_def)

lemma constructor_manager:
  "isRotating (manager (constructor env t0)) = False
   \<and> currentToken (manager (constructor env t0)) = PORT_API_TOKEN_PRIMARY env
   \<and> primary (tokens (manager (constructor env t0))) = PORT_API_TOKEN_PRIMARY env
   \<and> lastRotation (manager (constructor env t0)) = t0
   \<and> rotationInterval (manager (constructor env t0)) = 9000000"
  by (simp add: constructor_def Let_def)

subsection \<open>At most one rotation at a time\<close>

lemma one_rotation_trigger:
  assumes "rotations (inflight sys) \<le> 1"
    and "isRotating (manager sys) = (rotations (inflight sys) = 1)"
    and "sys' = (case rotateToken_enter (manager sys) of
                   (m, p) \<Rightarrow> \<lparr> manager = m, inflight = inflight sys @ spawn p \<rparr>)"
  shows "rotations (inflight sys') \<le> 1
         \<and> isRotating (manager sys') = (rotations (inflight sys') = 1)"
proof (cases "isRotating (manager sys)")
  case True
  then show ?thesis using assms by (simp add: flag_enter_busy spawn_def)
next
  case False
  obtain m p where mp: "rotateToken_enter (manager sys) = (m, p)"
    by (cases "rotateToken_enter (manager sys)")
  from False flag_enter [of "manager sys"] mp have "isRotating m = (p \<noteq> None)" by simp
  moreover from False assms have "rotations (inflight sys) = 0" by auto
  ultimately show ?thesis using mp assms(3)
    by (simp add: rotations_append rotations_spawn)
qed

lemma one_rotation_step:
  assumes le: "rotations (inflight sys) \<le> 1"
    and flag: "isRotating (manager sys) = (rotations (inflight sys) = 1)"
  shows "rotations (inflight (step e sys)) \<le> 1
         \<and> isRotating (manager (step e sys)) = (rotations (inflight (step e sys)) = 1)"
proof (cases e)
  case Timer
  then show ?thesis using one_rotation_trigger [OF le flag] by simp
next
  case ManualRotate
  then show ?thesis using one_rotation_trigger [OF le flag] by (simp add: manualRotate_def)
next
  case (Settle i out now)
  show ?thesis
  proof (cases "i < length (inflight sys)")
    case False
    then show ?thesis using le flag Settle by simp
  next
    case True
    note len = rotations_without [OF True]
    show ?thesis
    proof (cases "inflight sys ! i")
      case (Initialize req)
      then show ?thesis using le flag Settle True len
        by (simp add: flag_initialize)
    next
      case (Rotation p)
      obtain m p' where mp: "rotateToken_resume p out now (manager sys) = (m, p')"
        by (cases "rotateToken_resume p out now (manager sys)")
      from Rotation True have "0 < rotations (inflight sys)"
        using rotations_pos [of i "inflight sys"] by simp
      with le flag have busy: "isRotating (manager sys)"
        and one: "rotations (inflight sys) = 1"
        by auto
      from len one Rotation have none: "rotations (without i (inflight sys)) = 0"
        by simp
      from flag_resume [OF busy, of p out now] mp have "isRotating m = (p' \<noteq> None)"
        by simp
      then show ?thesis using Settle True Rotation mp none
        by (simp add: rotations_append rotations_spawn)
    qed
  qed
qed

lemma one_rotation_run:
  "rotations (inflight sys) \<le> 1 \<Longrightarrow>
   isRotating (manager sys) = (rotations (inflight sys) = 1) \<Longrightarrow>
   rotations (inflight (run es sys)) \<le> 1
   \<and> isRotating (manager (run es sys)) = (rotations (inflight (run es sys)) = 1)"
proof (induction es arbitrary: sys)
  case Nil
  then show ?case by simp
next
  case (Cons e es)
  from one_rotation_step [OF Cons.prems, of e] Cons.IH [of "step e sys"]
  show ?case by simp
qed

lemma one_rotation_reachable:
  "rotations (inflight (run es (constructor env t0))) \<le> 1
   \<and> isRotating (manager (run es (constructor env t0)))
       = (rotations (inflight (run es (constructor env t0))) = 1)"
proof (rule one_rotation_run)
  show "rotations (inflight (constructor env t0)) \<le> 1"
    using constructor_inflight [of env t0] by (auto simp: rotations_def)
  show "isRotating (manager (constructor env t0))
        = (rotations (inflight (constructor env t0)) = 1)"
    using constructor_inflight [of env t0] constructor_manager [of env t0]
    by (auto simp: rotations_def)
qed

lemma trigger_busy:
  "isRotating (manager sys) \<Longrightarrow> step Timer sys = sys \<and> step ManualRotate sys = sys"
  by (cases sys) (simp add: flag_enter_busy manualRotate_def spawn_def)

text \<open>
  Claim C1. A rotation attempt that finds \<open>isRotating\<close> true returns at once: no request
  is issued and the object is as before, for the timer and for \<open>manualRotate\<close> alike.
  An attempt that finds it false ends with it false, on every path: each path through
  the \<open>try\<close> block ends in \<open>finish\<close>, the \<open>finally\<close> of line 210, and the errors
  that arise inside (those of \<open>generateNewToken\<close>) are caught on the way. In every
  state the process can reach, whatever the timer, the callers and the service do, at
  most one rotation attempt is in progress, and \<open>isRotating\<close> is true exactly while
  one is.
\<close>

theorem rotation_guard_exclusive:
  "(isRotating m \<longrightarrow>
      rotateToken_enter m = (m, None) \<and> manualRotate m = (m, None)
      \<and> rotateToken net clock m = (m, []))
   \<and> (isRotating (manager sys) \<longrightarrow> step Timer sys = sys \<and> step ManualRotate sys = sys)
   \<and> (\<not> isRotating m \<longrightarrow> \<not> isRotating (fst (rotateToken net clock m)))
   \<and> rotations (inflight (run es (constructor env t0))) \<le> 1
   \<and> isRotating (manager (run es (constructor env t0)))
       = (rotations (inflight (run es (constructor env t0))) = 1)"
proof -
  have "\<not> isRotating m \<longrightarrow> \<not> isRotating (fst (rotateToken net clock m))"
    using await_all_releases [of "rotateToken_enter m" net clock "[]"] flag_enter [of m]
    by (simp add: rotateToken_def)
  then show ?thesis
    using one_rotation_reachable [of es env t0] trigger_busy [of sys]
    by (simp add: flag_enter_busy manualRotate_def rotateToken_def)
qed

theorem rotation_guard_exclusive_witness:
  "isRotating (manager (run [Timer] (constructor env_static 0)))
   \<and> run [Timer, ManualRotate, Timer] (constructor env_static 0)
       = run [Timer] (constructor env_static 0)
   \<and> rotations (inflight (run [Timer, ManualRotate, Timer] (constructor env_static 0))) = 1
   \<and> \<not> isRotating (manager (constructor env_static 0))
   \<and> \<not> isRotating (fst (rotateToken (remote [''tok-B''] None) at_noon
                          (manager (constructor env_static 0))))"
  using rotation_guard_exclusive
    [where m = "manager (constructor env_static 0)"
       and sys = "run [Timer] (constructor env_static 0)"
       and net = "remote [''tok-B''] None" and clock = at_noon
       and es = "[Timer]" and env = env_static and ?t0.0 = 0]
    rotation_guard_exclusive
    [where m = "manager (constructor env_static 0)"
       and sys = "run [Timer, ManualRotate] (constructor env_static 0)"
       and net = "remote [''tok-B''] None" and clock = at_noon
       and es = "[Timer, ManualRotate, Timer]" and env = env_static and ?t0.0 = 0]
  by (simp add: constructor_def env_static_def rotateToken_enter_def seg_defs truthy_def
      spawn_def manualRotate_def)

subsection \<open>The decision tree of one attempt\<close>

text \<open>
  Claim C2. In a rotation attempt (the guard is passed) where the current token is set,
  the service does not confirm it, and generation is unavailable (client id or secret
  not set) or fails: the candidate is the secondary token if the current token equals
  the primary token and the primary token otherwise; if the candidate is set and the
  service confirms it, it becomes the current token and the time stamp is the time of
  that moment, and otherwise the object is as before.
\<close>

theorem fallback_adopts_other_static_token:
  "\<not> isRotating m \<Longrightarrow> truthy (currentToken m) \<Longrightarrow>
   \<not> validateToken_result (net ValCurrent (GetBlueprints (currentToken m))) \<Longrightarrow>
   \<not> (truthy (clientId (clientCredentials m)) \<and> truthy (clientSecret (clientCredentials m)))
   \<or> generateNewToken_result (net GenRotate
        (PostAccessToken (clientId (clientCredentials m)) (clientSecret (clientCredentials m))))
      = Inl e \<Longrightarrow>
   other = (if currentToken m = primary (tokens m)
            then secondary (tokens m) else primary (tokens m)) \<Longrightarrow>
   fst (rotateToken net clock m) =
     (if truthy other \<and> validateToken_result (net ValBackup (GetBlueprints other))
      then m\<lparr>currentToken := other, lastRotation := clock ValBackup\<rparr>
      else m)"
  by (cases m) (auto simp add: rot_defs)

theorem fallback_adopts_other_static_token_witness:
  "currentToken (manager (constructor env_static 0)) = Some ''tok-A''
   \<and> lastRotation (manager (constructor env_static 0)) = 0
   \<and> currentToken (fst (rotateToken (remote [''tok-B''] None) at_noon
                          (manager (constructor env_static 0)))) = Some ''tok-B''
   \<and> lastRotation (fst (rotateToken (remote [''tok-B''] None) at_noon
                          (manager (constructor env_static 0)))) = 43200000"
proof -
  let ?m = "manager (constructor env_static 0)"
  let ?net = "remote [''tok-B''] None"
  note defs = constructor_def Let_def env_static_def remote_def at_noon_def truthy_def
    validateToken_result_def axios_def
  have idle: "\<not> isRotating ?m" and held: "truthy (currentToken ?m)"
    by (simp_all add: defs)
  have rejected: "\<not> validateToken_result (?net ValCurrent (GetBlueprints (currentToken ?m)))"
    by (simp add: defs)
  have no_credentials:
    "\<not> (truthy (clientId (clientCredentials ?m)) \<and> truthy (clientSecret (clientCredentials ?m)))
     \<or> generateNewToken_result (?net GenRotate
          (PostAccessToken (clientId (clientCredentials ?m)) (clientSecret (clientCredentials ?m))))
        = Inl CredentialsMissing"
    by (simp add: defs)
  have other: "Some ''tok-B'' = (if currentToken ?m = primary (tokens ?m)
                                 then secondary (tokens ?m) else primary (tokens ?m))"
    by (simp add: defs)
  have confirmed: "truthy (Some ''tok-B'')
      \<and> validateToken_result (?net ValBackup (GetBlueprints (Some ''tok-B'')))"
    by (simp add: defs)
  from fallback_adopts_other_static_token [OF idle held rejected no_credentials other, of at_noon]
    confirmed
  have "fst (rotateToken ?net at_noon ?m)
        = ?m\<lparr>currentToken := Some ''tok-B'', lastRotation := at_noon ValBackup\<rparr>"
    by simp
  then show ?thesis by (simp add: at_noon_def) (simp add: constructor_def Let_def env_static_def)
qed

text \<open>
  Claim C3. In a rotation attempt where no current token is set, client id and client
  secret are both set, and the generation succeeds: the generated token becomes the
  current token, the time stamp is the time of that moment, and the attempt ends having
  issued the one POST and no validation at all.
\<close>

theorem generate_when_no_current_token:
  "\<not> isRotating m \<Longrightarrow> \<not> truthy (currentToken m) \<Longrightarrow>
   truthy (clientId (clientCredentials m)) \<Longrightarrow> truthy (clientSecret (clientCredentials m)) \<Longrightarrow>
   generateNewToken_result (net GenNoToken
      (PostAccessToken (clientId (clientCredentials m)) (clientSecret (clientCredentials m))))
     = Inr newToken \<Longrightarrow>
   rotateToken net clock m =
     (m\<lparr>currentToken := newToken, lastRotation := clock GenNoToken\<rparr>,
      [PostAccessToken (clientId (clientCredentials m)) (clientSecret (clientCredentials m))])"
  by (cases m) (simp add: rot_defs)

theorem generate_when_no_current_token_witness:
  "currentToken (manager (constructor env_credentials 0)) = None
   \<and> currentToken (fst (rotateToken (remote [] (Some ''tok-NEW'')) at_noon
                          (manager (constructor env_credentials 0)))) = Some ''tok-NEW''
   \<and> lastRotation (fst (rotateToken (remote [] (Some ''tok-NEW'')) at_noon
                          (manager (constructor env_credentials 0)))) = 43200000
   \<and> snd (rotateToken (remote [] (Some ''tok-NEW'')) at_noon
             (manager (constructor env_credentials 0)))
       = [PostAccessToken (Some ''id'') (Some ''secret'')]"
  using generate_when_no_current_token
    [where m = "manager (constructor env_credentials 0)"
       and net = "remote [] (Some ''tok-NEW'')"
       and newToken = "Some ''tok-NEW''" and clock = at_noon]
  by (simp add: constructor_def Let_def env_credentials_def remote_def at_noon_def truthy_def
      generateNewToken_request_def generateNewToken_result_def axios_def)

text \<open>
  Claim C4. In a rotation attempt where no current token is set and the credentials
  are not usable (client id or secret not set, or the generation that was tried fails):
  the primary token, if set, is validated first; if the service confirms it, it becomes
  the current token with the time of that moment and nothing else is asked. Otherwise
  the secondary token, if set, is validated, and adopted in the same way if confirmed.
  If neither is adopted, the object is as before.
\<close>

theorem probe_primary_then_secondary:
  "\<not> isRotating m \<Longrightarrow> \<not> truthy (currentToken m) \<Longrightarrow>
   gen = (if truthy (clientId (clientCredentials m)) \<and> truthy (clientSecret (clientCredentials m))
          then [PostAccessToken (clientId (clientCredentials m))
                  (clientSecret (clientCredentials m))]
          else []) \<Longrightarrow>
   \<forall>req \<in> set gen. generateNewToken_result (net GenNoToken req) = Inl e \<Longrightarrow>
   p = primary (tokens m) \<Longrightarrow> s = secondary (tokens m) \<Longrightarrow>
   rotateToken net clock m =
     (if truthy p \<and> validateToken_result (net ValPrimary (GetBlueprints p))
      then (m\<lparr>currentToken := p, lastRotation := clock ValPrimary\<rparr>, gen @ [GetBlueprints p])
      else if truthy s \<and> validateToken_result (net ValSecondary (GetBlueprints s))
      then (m\<lparr>currentToken := s, lastRotation := clock ValSecondary\<rparr>,
            gen @ (if truthy p then [GetBlueprints p] else []) @ [GetBlueprints s])
      else (m, gen @ (if truthy p then [GetBlueprints p] else [])
                 @ (if truthy s then [GetBlueprints s] else [])))"
  by (cases m) (auto simp add: rot_defs)

theorem probe_primary_then_secondary_witness:
  "rotateToken (remote [''tok-B''] None) at_noon
     ((manager (constructor env_static 0))\<lparr>currentToken := None\<rparr>)
   = ((manager (constructor env_static 0))
        \<lparr>currentToken := Some ''tok-B'', lastRotation := 43200000\<rparr>,
      [GetBlueprints (Some ''tok-A''), GetBlueprints (Some ''tok-B'')])"
proof -
  let ?m = "(manager (constructor env_static 0))\<lparr>currentToken := None\<rparr>"
  let ?net = "remote [''tok-B''] None"
  note defs = constructor_def Let_def env_static_def remote_def at_noon_def truthy_def
    validateToken_result_def axios_def
  have idle: "\<not> isRotating ?m" and absent: "\<not> truthy (currentToken ?m)"
    by (simp_all add: defs)
  have gen: "[] = (if truthy (clientId (clientCredentials ?m))
                      \<and> truthy (clientSecret (clientCredentials ?m))
                   then [PostAccessToken (clientId (clientCredentials ?m))
                           (clientSecret (clientCredentials ?m))]
                   else [])"
    by (simp add: defs)
  have fails: "\<forall>req \<in> set []. generateNewToken_result (?net GenNoToken req) = Inl CredentialsMissing"
    by simp
  have p: "Some ''tok-A'' = primary (tokens ?m)" and s: "Some ''tok-B'' = secondary (tokens ?m)"
    by (simp_all add: defs)
  have rejected: "\<not> validateToken_result (?net ValPrimary (GetBlueprints (Some ''tok-A'')))"
    and confirmed: "validateToken_result (?net ValSecondary (GetBlueprints (Some ''tok-B'')))"
    by (simp_all add: defs)
  from probe_primary_then_secondary
    [where m = ?m and net = ?net and e = CredentialsMissing and gen = "[]"
       and p = "Some ''tok-A''" and s = "Some ''tok-B''" and clock = at_noon,
     OF idle absent gen fails p s]
    rejected confirmed
  have "rotateToken ?net at_noon ?m
        = (?m\<lparr>currentToken := Some ''tok-B'', lastRotation := at_noon ValSecondary\<rparr>,
           [GetBlueprints (Some ''tok-A''), GetBlueprints (Some ''tok-B'')])"
    by (simp add: truthy_def)
  then show ?thesis by (simp add: at_noon_def)
qed

text \<open>
  Claim C5. In a rotation attempt where the current token is set and the service
  confirms it, the object is left exactly as it was, current token and time stamp
  included; the only request issued is that validation.
\<close>

theorem valid_current_token_no_mutation:
  "truthy (currentToken m) \<Longrightarrow>
   validateToken_result (net ValCurrent (GetBlueprints (currentToken m))) \<Longrightarrow>
   rotateToken net clock m
     = (m, if isRotating m then [] else [GetBlueprints (currentToken m)])"
  by (simp add: rot_defs not_rotating_eq)

theorem valid_current_token_no_mutation_witness:
  "rotateToken (remote [''tok-A''] (Some ''tok-NEW'')) at_noon (manager (constructor env_all 0))
   = (manager (constructor env_all 0), [GetBlueprints (Some ''tok-A'')])"
  using valid_current_token_no_mutation
    [where m = "manager (constructor env_all 0)"
       and net = "remote [''tok-A''] (Some ''tok-NEW'')" and clock = at_noon]
  by (simp add: constructor_def Let_def env_all_def remote_def truthy_def
      validateToken_result_def axios_def)

text \<open>
  Claim C10. In the fallback of a rotation attempt (current token set, not confirmed,
  generation unavailable or failed) one static token at most is validated: the
  secondary token when the current token equals the primary token, the primary token
  otherwise. So when the current token is not the primary token, the attempt asks
  about the primary token only and ends with the primary token or with the token it
  had, whatever the service would have said about the secondary token.
\<close>

theorem fallback_probes_one_static_token:
  "\<not> isRotating m \<Longrightarrow> truthy (currentToken m) \<Longrightarrow>
   \<not> validateToken_result (net ValCurrent (GetBlueprints (currentToken m))) \<Longrightarrow>
   gen = (if truthy (clientId (clientCredentials m)) \<and> truthy (clientSecret (clientCredentials m))
          then [PostAccessToken (clientId (clientCredentials m))
                  (clientSecret (clientCredentials m))]
          else []) \<Longrightarrow>
   \<forall>req \<in> set gen. generateNewToken_result (net GenRotate req) = Inl e \<Longrightarrow>
   (currentToken m = primary (tokens m) \<longrightarrow>
      snd (rotateToken net clock m) =
        [GetBlueprints (currentToken m)] @ gen
        @ (if truthy (secondary (tokens m)) then [GetBlueprints (secondary (tokens m))] else []))
   \<and> (currentToken m \<noteq> primary (tokens m) \<longrightarrow>
      snd (rotateToken net clock m) =
        [GetBlueprints (currentToken m)] @ gen
        @ (if truthy (primary (tokens m)) then [GetBlueprints (primary (tokens m))] else [])
      \<and> currentToken (fst (rotateToken net clock m)) =
        (if truthy (primary (tokens m))
            \<and> validateToken_result (net ValBackup (GetBlueprints (primary (tokens m))))
         then primary (tokens m) else currentToken m))"
  by (cases m) (auto simp add: rot_defs)

theorem fallback_probes_one_static_token_witness:
  "validateToken_result (remote [''tok-B''] None ValBackup (GetBlueprints (Some ''tok-B'')))
   \<and> snd (rotateToken (remote [''tok-B''] None) at_noon
            ((manager (constructor env_static 0))\<lparr>currentToken := Some ''tok-GEN''\<rparr>))
       = [GetBlueprints (Some ''tok-GEN''), GetBlueprints (Some ''tok-A'')]
   \<and> currentToken (fst (rotateToken (remote [''tok-B''] None) at_noon
            ((manager (constructor env_static 0))\<lparr>currentToken := Some ''tok-GEN''\<rparr>)))
       = Some ''tok-GEN''"
  using fallback_probes_one_static_token
    [where m = "(manager (constructor env_static 0))\<lparr>currentToken := Some ''tok-GEN''\<rparr>"
       and net = "remote [''tok-B''] None" and gen = "[]" and e = CredentialsMissing
       and clock = at_noon]
  by (simp add: constructor_def Let_def env_static_def remote_def truthy_def
      validateToken_result_def axios_def)

subsection \<open>What one event changes\<close>

lemma frame_step:
  "tokens (manager (step e sys)) = tokens (manager sys)
   \<and> clientCredentials (manager (step e sys)) = clientCredentials (manager sys)
   \<and> rotationInterval (manager (step e sys)) = rotationInterval (manager sys)"
proof (cases e)
  case Timer
  then show ?thesis using frame_enter [of "manager sys"]
    by (cases "rotateToken_enter (manager sys)") simp
next
  case ManualRotate
  then show ?thesis using frame_enter [of "manager sys"]
    by (cases "rotateToken_enter (manager sys)") (simp add: manualRotate_def)
next
  case (Settle i out now)
  show ?thesis
  proof (cases "i < length (inflight sys)")
    case False
    with Settle show ?thesis by simp
  next
    case True
    show ?thesis
    proof (cases "inflight sys ! i")
      case (Initialize req)
      with Settle True show ?thesis by (simp add: frame_initialize)
    next
      case (Rotation p)
      with Settle True show ?thesis using frame_resume [of p out now "manager sys"]
        by (cases "rotateToken_resume p out now (manager sys)") simp
    qed
  qed
qed

lemma wf_spawn_enter:
  "rotateToken_enter m = (m', p) \<Longrightarrow> \<forall>t \<in> set (spawn p). wf_task (tokens m) t"
  using wf_enter [of m] by (cases p) (auto simp: spawn_def)

lemma wf_spawn_resume:
  "rotateToken_resume p out now m = (m', p') \<Longrightarrow> \<forall>t \<in> set (spawn p'). wf_task (tokens m) t"
  using wf_resume [of p out now m] by (cases p') (auto simp: spawn_def)

lemma wf_step: "wf_system sys \<Longrightarrow> wf_system (step e sys)"
proof -
  assume wf: "wf_system sys"
  have tok: "tokens (manager (step e sys)) = tokens (manager sys)"
    using frame_step [of e sys] by simp
  have "\<forall>t \<in> set (inflight (step e sys)). wf_task (tokens (manager sys)) t"
  proof (cases e)
    case Timer
    then show ?thesis using wf wf_spawn_enter [of "manager sys"]
      by (cases "rotateToken_enter (manager sys)") (auto simp: wf_system_def)
  next
    case ManualRotate
    then show ?thesis using wf wf_spawn_enter [of "manager sys"]
      by (cases "rotateToken_enter (manager sys)") (auto simp: wf_system_def manualRotate_def)
  next
    case (Settle i out now)
    show ?thesis
    proof (cases "i < length (inflight sys)")
      case False
      with Settle wf show ?thesis by (simp add: wf_system_def)
    next
      case True
      show ?thesis
      proof (cases "inflight sys ! i")
        case (Initialize req)
        with Settle True wf set_without [of i "inflight sys"] show ?thesis
          by (auto simp: wf_system_def)
      next
        case (Rotation p)
        with Settle True wf set_without [of i "inflight sys"]
          wf_spawn_resume [of p out now "manager sys"]
        show ?thesis
          by (cases "rotateToken_resume p out now (manager sys)") (auto simp: wf_system_def)
      qed
    qed
  qed
  with tok show ?thesis by (simp add: wf_system_def)
qed

lemma wf_constructor: "wf_system (constructor env t0)"
  using constructor_inflight [of env t0] by (auto simp: wf_system_def)

lemma wf_run: "wf_system sys \<Longrightarrow> wf_system (run es sys)"
  by (induction es arbitrary: sys) (auto intro: wf_step)

lemma step_effect:
  assumes "wf_system sys"
  shows "(if revalidates e sys \<or> (observe e sys = [] \<and> \<not> tokenless e sys)
          then currentToken (manager (step e sys)) = currentToken (manager sys)
             \<and> lastRotation (manager (step e sys)) = lastRotation (manager sys)
          else if tokenless e sys
          then \<not> truthy (currentToken (manager (step e sys)))
             \<and> arrival e = Some (lastRotation (manager (step e sys)))
          else observe e sys = [currentToken (manager (step e sys))]
             \<and> arrival e = Some (lastRotation (manager (step e sys))))"
proof (cases e)
  case Timer
  then show ?thesis using frame_enter [of "manager sys"]
    by (cases "rotateToken_enter (manager sys)") simp
next
  case ManualRotate
  then show ?thesis using frame_enter [of "manager sys"]
    by (cases "rotateToken_enter (manager sys)") (simp add: manualRotate_def)
next
  case (Settle i out now)
  show ?thesis
  proof (cases "i < length (inflight sys)")
    case False
    with Settle show ?thesis by simp
  next
    case True
    with assms have wf: "wf_task (tokens (manager sys)) (inflight sys ! i)"
      by (simp add: wf_system_def)
    show ?thesis
    proof (cases "inflight sys ! i")
      case (Initialize req)
      with wf have "is_post req" by simp
      from initialize_effect [OF this, of out now "manager sys"] Settle True Initialize
      show ?thesis by (simp split: if_splits)
    next
      case (Rotation p)
      with wf have "wf_pending (tokens (manager sys)) p" by simp
      from resume_effect [OF this, of out now] Settle True Rotation
      show ?thesis
        by (cases "rotateToken_resume p out now (manager sys)") (auto split: if_splits)
    qed
  qed
qed








text \<open>
  An attempt taken as a whole is one course of events of the process: the timer fires
  in a process with nothing in flight, and the outcomes arrive one after the other.
\<close>

lemma await_all_is_run:
  "\<exists>es. run es \<lparr> manager = fst mp, inflight = spawn (snd mp) \<rparr>
        = \<lparr> manager = fst (await_all net clock issued mp), inflight = [] \<rparr>"
proof (induction net clock issued mp rule: await_all.induct)
  case (1 net clock issued m)
  have "run [] \<lparr> manager = m, inflight = spawn None \<rparr> = \<lparr> manager = m, inflight = [] \<rparr>"
    by (simp add: spawn_def)
  then show ?case by (metis await_all.simps(1) fst_conv snd_conv)
next
  case (2 net clock issued m site req)
  let ?mp = "rotateToken_resume (site, req) (net site req) (clock site) m"
  from 2 obtain es where es: "run es \<lparr> manager = fst ?mp, inflight = spawn (snd ?mp) \<rparr>
        = \<lparr> manager = fst (await_all net clock (issued @ [req]) ?mp), inflight = [] \<rparr>"
    by blast
  have "step (Settle 0 (net site req) (clock site))
          \<lparr> manager = m, inflight = spawn (Some (site, req)) \<rparr>
        = \<lparr> manager = fst ?mp, inflight = spawn (snd ?mp) \<rparr>"
    by (cases ?mp) (simp add: spawn_def without_def)
  with es have "run (Settle 0 (net site req) (clock site) # es)
          \<lparr> manager = m, inflight = spawn (Some (site, req)) \<rparr>
        = \<lparr> manager = fst (await_all net clock issued (m, Some (site, req))), inflight = [] \<rparr>"
    by simp
  then show ?case by (metis fst_conv snd_conv)
qed

lemma rotateToken_is_run:
  "\<exists>es. run (Timer # es) \<lparr> manager = m, inflight = [] \<rparr>
        = \<lparr> manager = fst (rotateToken net clock m), inflight = [] \<rparr>"
  using await_all_is_run [of "rotateToken_enter m" net clock "[]"]
  by (cases "rotateToken_enter m") (simp add: rotateToken_def)

subsection \<open>The current token along a course of events\<close>














lemmas run_defs = constructor_def Let_def rotateToken_enter_def manualRotate_def seg_defs
  spawn_def without_def truthy_def validateToken_result_def generateNewToken_result_def
  axios_def initializeTokenFromCredentials_resume_def



lemma run_rejected_then_confirmed:
  "run rejected_then_confirmed (constructor env_static 0)
   = \<lparr> manager = (manager (constructor env_static 0))
                     \<lparr>currentToken := Some ''tok-B'', lastRotation := 2000\<rparr>,
       inflight = [] \<rparr>"
  by (simp add: rejected_then_confirmed_def env_static_def run_defs)

lemma history_rejected_then_confirmed:
  "history rejected_then_confirmed (constructor env_static 0) = [Some ''tok-B'']"
  by (simp add: rejected_then_confirmed_def env_static_def run_defs)


text \<open>
  When the initial generation overlaps with rotation attempts, the token confirmed last
  need not be the current one: here the service issues tok-1 to a rotation attempt,
  then tok-0 to the initial generation, and then confirms tok-1 to a second attempt
  that had found it current.
\<close>

lemma overlapping_initial_generation:
  "currentToken (manager (run overlapping (constructor env_credentials 0))) = Some ''tok-0''
   \<and> history overlapping (constructor env_credentials 0)
       = [Some ''tok-1'', Some ''tok-0'', Some ''tok-1'']
   \<and> \<not> apart overlapping (constructor env_credentials 0)"
  by (simp add: overlapping_def env_credentials_def run_defs)

text \<open>
  A generation that returns without a token is adopted like any other (lines 171-172
  do not test the token, as line 185 does for a static token): the token held is
  replaced by none, and the time stamp is set.
\<close>

lemma empty_issue_replaces_token:
  "tokenless issued_nothing (run rejected_once (constructor env_all 0))
   \<and> currentToken (manager (run rejected_once (constructor env_all 0))) = Some ''tok-A''
   \<and> currentToken (manager (step issued_nothing (run rejected_once (constructor env_all 0))))
       = None
   \<and> lastRotation (manager (step issued_nothing (run rejected_once (constructor env_all 0))))
       = 2000"
  by (simp add: issued_nothing_def rejected_once_def env_all_def run_defs)

subsection \<open>Failures stay inside\<close>



subsection \<open>The time stamp and the current token over the life of the process\<close>

lemma observe_truthy: "t \<in> set (observe e sys) \<Longrightarrow> truthy t"
  by (cases e) (auto dest: confirms_truthy split: if_splits)

text \<open>
  Claim C7, as stated: the time stamp is updated only by a rotation attempt. It fails
  where the constructor has started the initial generation
  (\<open>initializeTokenFromCredentials\<close>, lines 49-63): when that returns a token, line 53
  sets the time stamp, and no rotation attempt is or has been in progress.
\<close>

theorem lastRotation_initial_generation_counterexample:
  "rotations (inflight (constructor env_credentials 0)) = 0
   \<and> \<not> isRotating (manager (constructor env_credentials 0))
   \<and> lastRotation (manager (constructor env_credentials 0)) = 0
   \<and> lastRotation (manager (step initial_issued (constructor env_credentials 0))) = 500
   \<and> currentToken (manager (step initial_issued (constructor env_credentials 0)))
       = Some ''tok-NEW''"
  by (simp add: initial_issued_def env_credentials_def run_defs rotations_def)

text \<open>
  Claim C7, amended. In every state the process can reach, an event other than the
  return of a generation without a token changes the time stamp only together with
  the current token, and only when it is the arrival of an outcome that issues or
  confirms a token, in a rotation attempt or in the initial generation of the
  constructor, and in a place other than the validation of the token held: then that
  token, which is set, becomes the current token and the time stamp becomes the time of
  arrival. The timer, \<open>manualRotate\<close>, a failed generation, a failed validation and
  the validation of the token held, successful or not, leave both as they are.
\<close>

theorem lastRotation_only_with_token:
  assumes "sys = run es (constructor env t0)" and "\<not> tokenless e sys"
  shows "(if observe e sys = [] \<or> revalidates e sys
          then currentToken (manager (step e sys)) = currentToken (manager sys)
             \<and> lastRotation (manager (step e sys)) = lastRotation (manager sys)
          else observe e sys = [currentToken (manager (step e sys))]
             \<and> truthy (currentToken (manager (step e sys)))
             \<and> arrival e = Some (lastRotation (manager (step e sys))))"
proof -
  from assms(1) have "wf_system sys" by (simp add: wf_run wf_constructor)
  from step_effect [OF this, of e] assms(2)
  have main: "(if observe e sys = [] \<or> revalidates e sys
          then currentToken (manager (step e sys)) = currentToken (manager sys)
             \<and> lastRotation (manager (step e sys)) = lastRotation (manager sys)
          else observe e sys = [currentToken (manager (step e sys))]
             \<and> arrival e = Some (lastRotation (manager (step e sys))))"
    by (auto split: if_splits)
  show ?thesis
  proof (cases "observe e sys = [] \<or> revalidates e sys")
    case True
    with main show ?thesis by simp
  next
    case False
    with main have "observe e sys = [currentToken (manager (step e sys))]" by simp
    then have "currentToken (manager (step e sys)) \<in> set (observe e sys)" by simp
    then have "truthy (currentToken (manager (step e sys)))" by (rule observe_truthy)
    with main False show ?thesis by simp
  qed
qed

theorem lastRotation_only_with_token_witness:
  "revalidates held_confirmed (run timer_fired (constructor env_static 0))
   \<and> lastRotation (manager (step held_confirmed (run timer_fired (constructor env_static 0))))
       = 0
   \<and> observe backup_confirmed (run rejected_once (constructor env_static 0))
       = [Some ''tok-B'']
   \<and> currentToken
        (manager (step backup_confirmed (run rejected_once (constructor env_static 0))))
       = Some ''tok-B''
   \<and> lastRotation
        (manager (step backup_confirmed (run rejected_once (constructor env_static 0))))
       = 2000"
proof -
  let ?sys = "run timer_fired (constructor env_static 0)"
  let ?sys' = "run rejected_once (constructor env_static 0)"
  have again: "revalidates held_confirmed ?sys"
    and token: "\<not> tokenless held_confirmed ?sys"
    by (simp_all add: held_confirmed_def timer_fired_def env_static_def run_defs)
  from again lastRotation_only_with_token [OF refl token]
  have "lastRotation (manager (step held_confirmed ?sys)) = lastRotation (manager ?sys)"
    by simp
  moreover have "lastRotation (manager ?sys) = 0"
    by (simp add: timer_fired_def env_static_def run_defs)
  moreover have seen: "observe backup_confirmed ?sys' = [Some ''tok-B'']"
    and other: "\<not> revalidates backup_confirmed ?sys'"
    and token': "\<not> tokenless backup_confirmed ?sys'"
    by (simp_all add: backup_confirmed_def rejected_once_def env_static_def run_defs)
  from seen other lastRotation_only_with_token [OF refl token']
  have "Some ''tok-B'' = currentToken (manager (step backup_confirmed ?sys'))
        \<and> arrival backup_confirmed = Some (lastRotation (manager (step backup_confirmed ?sys')))"
    by simp
  moreover have "arrival backup_confirmed = Some 2000"
    by (simp add: backup_confirmed_def)
  ultimately show ?thesis using again seen by simp
qed




subsection \<open>The validator\<close>

text \<open>
  Claim C9. For every token, \<open>validateToken\<close> issues the GET on /v1/blueprints with that
  token and returns a boolean whatever comes back, so nothing is thrown: the boolean is
  true exactly when the outcome is a response with status 200, and a missing response
  (transport error, timeout) or any other status gives false.
\<close>

theorem validateToken_true_iff_200:
  "validateToken_request t = GetBlueprints t
   \<and> validateToken_result out = (\<exists>body. out = Response 200 body)
   \<and> validateToken_result NoResponse = False
   \<and> (status \<noteq> 200 \<longrightarrow> validateToken_result (Response status body') = False)"
  by (cases out) (auto simp: validateToken_request_def validateToken_result_def axios_def)

theorem validateToken_true_iff_200_witness:
  "(404::nat) \<noteq> 200 \<and> validateToken_result (Response 404 None) = False
   \<and> validateToken_result (Response 200 None) = True
   \<and> validateToken_result (Response 204 None) = False"
  using validateToken_true_iff_200 [of "Some ''tok-A''" "Response 204 None" 404 None]
    validateToken_true_iff_200 [of "Some ''tok-A''" "Response 200 None" 404 None]
  by simp

end
